theory Spec2Isabelle
  imports Complex_Main
begin

section \<open>BERT for aspect sentiment classification: \<open>run_asc.py\<close>\<close>

text \<open>
  A shallow embedding of \<open>src/run_asc.py\<close>: the learning-rate schedule
  \<open>warmup_linear\<close>, the multi-layer head \<open>GRoIE\<close>, the classification model
  \<open>BertForABSA\<close>, the training loop \<open>train\<close>, the evaluation routine \<open>test\<close> and
  \<open>main\<close>.

  Conventions of the embedding.
  \<^item> Python floats are idealised as \<^typ>\<open>real\<close>: rounding is not modelled.
  \<^item> A raised exception is a value \<open>Inl e\<close> of a sum type, a normal return is \<open>Inr v\<close>.
  \<^item> Modules whose code is not in \<open>run_asc.py\<close> (the encoder \<open>BertModel\<close>, \<open>BertLayer\<close>,
    \<open>BertPooler\<close>, the linear classifier, \<open>CrossEntropyLoss\<close>, the optimizer's update rule)
    are parameters of the model: fields of a record or arguments of a function.
\<close>

subsection \<open>Exceptions\<close>

datatype py_error =
    IndexError
  | RuntimeError
  | TypeError
  | ValueError
  | ZeroDivisionError
  | FileNotFoundError
  | FileExistsError
  | NameError

subsection \<open>The schedule function (lines 42-45)\<close>

text \<open>
  \<^verbatim>\<open>
  def warmup_linear(x, warmup=0.002):
      if x < warmup:
          return x/warmup
      return 1.0 - x
  \<close>
  When \<open>x < warmup\<close> holds and \<open>warmup\<close> is \<open>0\<close>, \<open>x\<close> is negative and Python raises
  \<open>ZeroDivisionError\<close>; the training loop never calls the function so (its progress
  argument is non-negative whenever it is computed), and the theorems below take
  \<open>0 < warmup\<close>, where the division is defined.
\<close>

definition warmup_linear :: "real \<Rightarrow> real \<Rightarrow> real" where
  "warmup_linear x warmup = (if x < warmup then x / warmup else 1 - x)"

subsection \<open>Lists and tensors\<close>

text \<open>
  Python indexing of a list: a negative index counts from the end, an index out of range
  raises \<open>IndexError\<close>.
\<close>

definition py_index :: "'a list \<Rightarrow> int \<Rightarrow> py_error + 'a" where
  "py_index xs i =
     (if 0 \<le> i \<and> i < int (length xs) then Inr (xs ! nat i)
      else if i < 0 \<and> - int (length xs) \<le> i then Inr (xs ! nat (int (length xs) + i))
      else Inl IndexError)"

text \<open>
  \<open>chunks n xs\<close> cuts \<open>xs\<close> into consecutive pieces of \<open>n\<close> elements, the last one
  shorter when \<open>n\<close> does not divide the length. It is the order in which a
  \<open>DataLoader\<close> over a sequential order yields its batches (\<open>drop_last\<close> is left
  at its default \<open>False\<close>), and the rows of a row-major \<open>view(-1, n)\<close>.
\<close>

function chunks :: "nat \<Rightarrow> 'a list \<Rightarrow> 'a list list" where
  "chunks n xs = (if n = 0 \<or> xs = [] then [] else take n xs # chunks n (drop n xs))"
  by pat_completeness auto
termination
  by (relation "measure (\<lambda>(n, xs). length xs)") auto

declare chunks.simps [simp del]

text \<open>
  A logits tensor of shape \<open>(B, num_labels)\<close> is a list of \<open>B\<close> rows. A loss is a
  tensor with no dimension (\<open>Scalar\<close>) or, for \<open>torch.Tensor(0)\<close>, a one-dimensional
  tensor (\<open>Tensor1\<close>) of size \<open>0\<close>: \<open>torch.Tensor(n)\<close> with an integer \<open>n\<close> builds
  a tensor of \<open>n\<close> elements, not a tensor holding the number \<open>n\<close>.
\<close>

type_synonym logits = "real list list"

datatype tensor = Scalar real | Tensor1 "real list"

text \<open>
  \<open>t.item()\<close> reads the one number of a tensor with exactly one element and raises
  for any other tensor.
\<close>

fun item :: "tensor \<Rightarrow> py_error + real" where
  "item (Scalar x) = Inr x"
| "item (Tensor1 [x]) = Inr x"
| "item (Tensor1 xs) = Inl RuntimeError"

text \<open>
  \<open>logits.view(-1, n)\<close>: the elements in row-major order, regrouped in rows of \<open>n\<close>;
  it raises when the number of elements is not a multiple of \<open>n\<close>.
\<close>

definition view2 :: "nat \<Rightarrow> logits \<Rightarrow> py_error + logits" where
  "view2 n t =
     (if n = 0 \<or> length (concat t) mod n \<noteq> 0 then Inl RuntimeError
      else Inr (chunks n (concat t)))"

text \<open>
  \<open>torch.sum(torch.stack(ts), dim=0)\<close>: stacking raises on an empty list and on
  tensors of different shapes; the sum along the new dimension is the elementwise sum.
\<close>

fun stack_sum :: "logits list \<Rightarrow> py_error + logits" where
  "stack_sum [] = Inl RuntimeError"
| "stack_sum [t] = Inr t"
| "stack_sum (t # ts) =
     (case stack_sum ts of
        Inl e \<Rightarrow> Inl e
      | Inr s \<Rightarrow>
          if map length t = map length s then Inr (map2 (map2 (+)) t s)
          else Inl RuntimeError)"

subsection \<open>The multi-layer head \<open>GRoIE\<close> (lines 47-76)\<close>

text \<open>
  \<^verbatim>\<open>
  class GRoIE(nn.Module):
      def __init__(self, count, config, num_labels):
          self.count = count
          self.num_labels = num_labels
          self.pooler = BertPooler(config)
          self.pre_layers = torch.nn.ModuleList()
          self.loss_fct = torch.nn.ModuleList()
          self.classifier = torch.nn.Linear(config.hidden_size, num_labels)
          for i in range(count):
              self.pre_layers.append(BertLayer(config))
              self.loss_fct.append(torch.nn.CrossEntropyLoss(ignore_index=-1))
  \<close>
  The head holds one pooler and one classifier, and \<open>count\<close> refinement layers and loss
  functions, which \<open>forward\<close> reads at the indices below \<open>count\<close> only; the two module
  lists are functions of the index. What the sub-modules compute is not in this file:
  they are the fields of the record. \<open>'h\<close> is the type of a hidden state, \<open>'m\<close> of the
  attention mask, \<open>'p\<close> of a pooled output; labels are a list of label ids.
\<close>

record ('h, 'm, 'p) GRoIE =
  count :: nat
  num_labels :: nat
  pooler :: "'h \<Rightarrow> 'p"
  pre_layers :: "nat \<Rightarrow> 'h \<Rightarrow> 'm \<Rightarrow> 'h"
  loss_fct :: "nat \<Rightarrow> logits \<Rightarrow> int list \<Rightarrow> real"
  classifier :: "'p \<Rightarrow> logits"

definition GRoIE_init ::
  "nat \<Rightarrow> ('h \<Rightarrow> 'p) \<Rightarrow> (nat \<Rightarrow> 'h \<Rightarrow> 'm \<Rightarrow> 'h) \<Rightarrow> (nat \<Rightarrow> logits \<Rightarrow> int list \<Rightarrow> real)
     \<Rightarrow> ('p \<Rightarrow> logits) \<Rightarrow> nat \<Rightarrow> ('h, 'm, 'p) GRoIE" where
  "GRoIE_init cnt pool layer_of loss_of cls nl =
     \<lparr>count = cnt, num_labels = nl, pooler = pool, pre_layers = layer_of,
      loss_fct = loss_of, classifier = cls\<rparr>"

text \<open>
  \<^verbatim>\<open>
      def forward(self, layers, attention_mask, labels):
          losses = []
          logitses = []
          for i in range(self.count):
              layer = self.pre_layers[i](layers[-i-1], attention_mask)
              layer = self.pooler(layer)
              logits = self.classifier(layer)
              if labels is not None:
                  loss = self.loss_fct[i](logits.view(-1, self.num_labels), labels.view(-1))
                  losses.append(loss)
              logitses.append(logits)
          if labels is not None:
              total_loss = torch.sum(torch.stack(losses), dim=0)
          else:
              total_loss = torch.Tensor(0)
          avg_logits = torch.sum(torch.stack(logitses), dim=0)/self.count
          return total_loss, avg_logits
  \<close>
  \<open>branches\<close> is the loop, over the indices still to visit, with the two lists as
  accumulators. The labels are a one-dimensional tensor, which \<open>labels.view(-1)\<close>
  returns as it is.
\<close>

fun branches ::
  "('h, 'm, 'p) GRoIE \<Rightarrow> 'h list \<Rightarrow> 'm \<Rightarrow> int list option \<Rightarrow> nat list
     \<Rightarrow> real list \<times> logits list \<Rightarrow> py_error + real list \<times> logits list" where
  "branches g layers attention_mask labels [] acc = Inr acc"
| "branches g layers attention_mask labels (i # rest) (losses, logitses) =
     (case py_index layers (- int i - 1) of
        Inl e \<Rightarrow> Inl e
      | Inr h \<Rightarrow>
          (let layer = pre_layers g i h attention_mask;
               pooled = pooler g layer;
               logits = classifier g pooled
           in case labels of
                None \<Rightarrow>
                  branches g layers attention_mask labels rest (losses, logitses @ [logits])
              | Some ls \<Rightarrow>
                  (case view2 (num_labels g) logits of
                     Inl e \<Rightarrow> Inl e
                   | Inr v \<Rightarrow>
                       branches g layers attention_mask labels rest
                         (losses @ [loss_fct g i v ls], logitses @ [logits]))))"

definition GRoIE_forward ::
  "('h, 'm, 'p) GRoIE \<Rightarrow> 'h list \<Rightarrow> 'm \<Rightarrow> int list option \<Rightarrow> py_error + tensor \<times> logits" where
  "GRoIE_forward g layers attention_mask labels =
     (case branches g layers attention_mask labels [0..<count g] ([], []) of
        Inl e \<Rightarrow> Inl e
      | Inr (losses, logitses) \<Rightarrow>
          (case (case labels of
                   Some ls \<Rightarrow>
                     if losses = [] then Inl RuntimeError
                     else Inr (Scalar (sum_list losses))
                 | None \<Rightarrow> Inr (Tensor1 [])) of
             Inl e \<Rightarrow> Inl e
           | Inr total_loss \<Rightarrow>
               (case stack_sum logitses of
                  Inl e \<Rightarrow> Inl e
                | Inr s \<Rightarrow> Inr (total_loss, map (map (\<lambda>x. x / real (count g))) s))))"

subsection \<open>The classification model \<open>BertForABSA\<close> (lines 79-95)\<close>

text \<open>
  \<^verbatim>\<open>
  class BertForABSA(BertPreTrainedModel):
      def __init__(self, config, num_labels=3):
          self.num_labels = num_labels
          self.bert = BertModel(config)
          self.groie = GRoIE(4, config, num_labels)

      def forward(self, input_ids, token_type_ids=None, attention_mask=None, labels=None):
          layers, _, mask = self.bert(input_ids, token_type_ids,
                                      attention_mask=attention_mask,
                                      output_all_encoded_layers=True)
          loss, logits = self.groie(layers, mask, labels)
          if labels is not None:
              return loss
          else:
              return logits
  \<close>
  The encoder is a field of the record: a function from the three input tensors to the
  list of hidden states, a second component that \<open>forward\<close> drops (type \<open>'u\<close>) and the
  mask it hands to the head. The result is the loss or the logits, never both.
\<close>

datatype forward_result = Loss tensor | Logits logits

record ('h, 'm, 'p, 'u) BertForABSA =
  absa_num_labels :: nat
  bert :: "int list list \<Rightarrow> int list list option \<Rightarrow> int list list option \<Rightarrow> 'h list \<times> 'u \<times> 'm"
  groie :: "('h, 'm, 'p) GRoIE"

definition BertForABSA_init ::
  "(int list list \<Rightarrow> int list list option \<Rightarrow> int list list option \<Rightarrow> 'h list \<times> 'u \<times> 'm)
     \<Rightarrow> ('h \<Rightarrow> 'p) \<Rightarrow> (nat \<Rightarrow> 'h \<Rightarrow> 'm \<Rightarrow> 'h) \<Rightarrow> (nat \<Rightarrow> logits \<Rightarrow> int list \<Rightarrow> real)
     \<Rightarrow> ('p \<Rightarrow> logits) \<Rightarrow> nat \<Rightarrow> ('h, 'm, 'p, 'u) BertForABSA" where
  "BertForABSA_init enc pool layer_of loss_of cls nl =
     \<lparr>absa_num_labels = nl, bert = enc, groie = GRoIE_init 4 pool layer_of loss_of cls nl\<rparr>"

definition BertForABSA_forward ::
  "('h, 'm, 'p, 'u) BertForABSA \<Rightarrow> int list list \<Rightarrow> int list list option \<Rightarrow> int list list option
     \<Rightarrow> int list option \<Rightarrow> py_error + forward_result" where
  "BertForABSA_forward m input_ids token_type_ids attention_mask labels =
     (case bert m input_ids token_type_ids attention_mask of
        (layers, _, ext_mask) \<Rightarrow>
          (case GRoIE_forward (groie m) layers ext_mask labels of
             Inl e \<Rightarrow> Inl e
           | Inr (loss, logits) \<Rightarrow>
               if labels \<noteq> None then Inr (Loss loss) else Inr (Logits logits)))"

subsection \<open>Properties of the schedule function\<close>

lemma warmup_linear_ramp:
  "x < warmup \<Longrightarrow> warmup_linear x warmup = x / warmup"
  by (simp add: warmup_linear_def)

lemma warmup_linear_at_warmup: "warmup_linear w w = 1 - w"
  by (simp add: warmup_linear_def)

lemma warmup_linear_jump:
  assumes w: "0 < w"
  shows "\<not> isCont (\<lambda>p. warmup_linear p w) w"
proof
  assume c: "isCont (\<lambda>p. warmup_linear p w) w"
  have "((\<lambda>p. warmup_linear p w) \<longlongrightarrow> warmup_linear w w) (at_left w)"
    using c unfolding isCont_def by (rule filterlim_mono) (simp_all add: at_le)
  then have below: "((\<lambda>p. warmup_linear p w) \<longlongrightarrow> 1 - w) (at_left w)"
    by (simp add: warmup_linear_at_warmup)
  have ev: "eventually (\<lambda>p. p / w = warmup_linear p w) (at_left w)"
    unfolding eventually_at_filter by (simp add: warmup_linear_def)
  have "((\<lambda>p. p / w) \<longlongrightarrow> w / w) (at_left w)"
    by (intro tendsto_intros) (use w in simp)
  then have "((\<lambda>p. p / w) \<longlongrightarrow> 1) (at_left w)"
    using w by simp
  then have ramp: "((\<lambda>p. warmup_linear p w) \<longlongrightarrow> 1) (at_left w)"
    using ev by (rule Lim_transform_eventually)
  have "1 - w = 1"
    using below ramp by (rule tendsto_unique [OF trivial_limit_at_left_real])
  then show False using w by simp
qed

text \<open>
  Claim C1, as amended. For every \<open>warmup\<close> fraction \<open>w\<close> in \<open>(0,1)\<close> and every progress
  \<open>p\<close> in \<open>[w, 1]\<close> the schedule function returns \<open>1 - p\<close>, it is strictly decreasing
  there, and its value at progress \<open>1\<close> is \<open>0\<close>. At progress \<open>w\<close> the two branches do
  not agree: the decay branch is the one taken and gives \<open>1 - w\<close>, whereas the warmup
  branch \<open>p / w\<close> tends to \<open>1\<close>; so the multiplier is not continuous at \<open>w\<close>.
\<close>

theorem warmup_linear_decay:
  assumes "0 < w" and "w < 1"
  shows "(\<forall>p. w \<le> p \<and> p \<le> 1 \<longrightarrow> warmup_linear p w = 1 - p)
       \<and> (\<forall>p q. w \<le> p \<and> p < q \<and> q \<le> 1 \<longrightarrow> warmup_linear q w < warmup_linear p w)
       \<and> warmup_linear 1 w = 0
       \<and> warmup_linear w w = 1 - w
       \<and> ((\<lambda>p. p / w) \<longlongrightarrow> 1) (at_left w)
       \<and> \<not> isCont (\<lambda>p. warmup_linear p w) w"
proof -
  have "((\<lambda>p. p / w) \<longlongrightarrow> w / w) (at_left w)"
    by (intro tendsto_intros) (use assms in simp)
  then have "((\<lambda>p. p / w) \<longlongrightarrow> 1) (at_left w)"
    using assms by simp
  then show ?thesis
    using assms warmup_linear_jump [of w] by (simp add: warmup_linear_def)
qed

theorem warmup_linear_decay_witness:
  "(0::real) < 1/2 \<and> (1/2::real) < 1
   \<and> warmup_linear (3/4) (1/2) = 1/4
   \<and> warmup_linear 1 (1/2) = 0
   \<and> warmup_linear (1/2) (1/2) = 1/2
   \<and> \<not> isCont (\<lambda>p. warmup_linear p (1/2)) (1/2)"
  using warmup_linear_decay [of "1/2"] by simp

text \<open>
  The claim as first stated fails at \<open>warmup = 1/2\<close>: the multiplier at progress \<open>1/2\<close>
  is \<open>1/2\<close>, not \<open>1\<close>, while just below, at progress \<open>499/1000\<close>, it is \<open>499/500\<close>.
\<close>

theorem warmup_linear_not_one_at_warmup:
  "warmup_linear (1/2) (1/2) = 1/2
   \<and> warmup_linear (1/2) (1/2) \<noteq> 1
   \<and> warmup_linear (499/1000) (1/2) = 499/500"
  by (simp add: warmup_linear_def)

subsection \<open>Properties of the head\<close>

text \<open>
  Two notions for the statements: a tensor of shape \<open>(b, c)\<close>, and the logits of branch
  \<open>i\<close>, computed from the hidden state at position \<open>-i-1\<close> of the layer stack.
\<close>

definition has_shape :: "nat \<Rightarrow> nat \<Rightarrow> logits \<Rightarrow> bool" where
  "has_shape b c t = (length t = b \<and> list_all (\<lambda>row. length row = c) t)"

definition branch_logits :: "('h, 'm, 'p) GRoIE \<Rightarrow> 'h list \<Rightarrow> 'm \<Rightarrow> nat \<Rightarrow> logits" where
  "branch_logits g layers am i =
     classifier g (pooler g (pre_layers g i (layers ! (length layers - Suc i)) am))"

lemma py_index_from_end:
  "py_index xs (- int i - 1) =
     (if i < length xs then Inr (xs ! (length xs - Suc i)) else Inl IndexError)"
proof (cases "i < length xs")
  case True
  then have "nat (int (length xs) + (- int i - 1)) = length xs - Suc i" by linarith
  with True show ?thesis by (simp add: py_index_def)
next
  case False
  then show ?thesis by (simp add: py_index_def)
qed

lemma branches_unlabelled:
  "branches g layers am None idxs (losses, lgs) = Inr (losses', lgs') \<Longrightarrow>
     losses' = losses \<and> lgs' = lgs @ map (branch_logits g layers am) idxs
     \<and> (\<forall>i\<in>set idxs. i < length layers)"
proof (induction idxs arbitrary: losses lgs)
  case Nil
  then show ?case by simp
next
  case (Cons i idxs)
  from Cons.prems have i: "i < length layers"
    and rec: "branches g layers am None idxs (losses, lgs @ [branch_logits g layers am i])
                = Inr (losses', lgs')"
    by (auto simp: py_index_from_end Let_def branch_logits_def split: if_splits)
  from Cons.IH [OF rec] i show ?case by simp
qed

lemma branches_unlabelled_ok:
  "\<forall>i\<in>set idxs. i < length layers \<Longrightarrow>
     branches g layers am None idxs (losses, lgs)
       = Inr (losses, lgs @ map (branch_logits g layers am) idxs)"
  by (induction idxs arbitrary: losses lgs)
     (auto simp: py_index_from_end Let_def branch_logits_def)

lemma branches_labelled:
  "branches g layers am (Some ls) idxs (losses, lgs) = Inr (losses', lgs') \<Longrightarrow>
     losses' = losses @ map (\<lambda>i. loss_fct g i
                 (chunks (num_labels g) (concat (branch_logits g layers am i))) ls) idxs
     \<and> lgs' = lgs @ map (branch_logits g layers am) idxs
     \<and> (\<forall>i\<in>set idxs. i < length layers)"
proof (induction idxs arbitrary: losses lgs)
  case Nil
  then show ?case by simp
next
  case (Cons i idxs)
  let ?v = "chunks (num_labels g) (concat (branch_logits g layers am i))"
  from Cons.prems have i: "i < length layers"
    and rec: "branches g layers am (Some ls) idxs
                (losses @ [loss_fct g i ?v ls], lgs @ [branch_logits g layers am i])
                = Inr (losses', lgs')"
    by (auto simp: py_index_from_end Let_def branch_logits_def view2_def
             split: if_splits)
  from Cons.IH [OF rec] i show ?case by simp
qed

lemma sum_list_upt: "sum_list (map f [0..<n]) = (\<Sum>i<n. f i)"
  by (simp add: interv_sum_list_conv_sum_set_nat atLeast0LessThan)


lemma has_shape_lengths: "has_shape b c t \<Longrightarrow> map length t = replicate b c"
  unfolding has_shape_def by (induction t arbitrary: b) auto

lemma has_shape_row: "has_shape b c t \<Longrightarrow> r < b \<Longrightarrow> length (t ! r) = c"
  unfolding has_shape_def by (auto simp: list_all_length)

lemma has_shape_add:
  assumes "has_shape b c t" and "has_shape b c s"
  shows "has_shape b c (map2 (map2 (+)) t s)"
    and "\<forall>r<b. \<forall>k<c. map2 (map2 (+)) t s ! r ! k = t ! r ! k + s ! r ! k"
  using assms unfolding has_shape_def by (auto simp: list_all_length)

lemma stack_sum_shape:
  "ts \<noteq> [] \<Longrightarrow> \<forall>t\<in>set ts. has_shape b c t \<Longrightarrow>
     \<exists>s. stack_sum ts = Inr s \<and> has_shape b c s
        \<and> (\<forall>r<b. \<forall>k<c. s ! r ! k = (\<Sum>t\<leftarrow>ts. t ! r ! k))"
proof (induction ts rule: stack_sum.induct)
  case 1
  then show ?case by simp
next
  case (2 t)
  then show ?case by simp
next
  case (3 t u us)
  then obtain s where s: "stack_sum (u # us) = Inr s" "has_shape b c s"
    "\<forall>r<b. \<forall>k<c. s ! r ! k = (\<Sum>t\<leftarrow>u # us. t ! r ! k)"
    by auto
  from 3 have t: "has_shape b c t" by simp
  have "map length t = map length s"
    using t s(2) by (simp add: has_shape_lengths)
  then have "stack_sum (t # u # us) = Inr (map2 (map2 (+)) t s)"
    using s(1) by simp
  moreover have "has_shape b c (map2 (map2 (+)) t s)"
    using t s(2) by (rule has_shape_add)
  moreover have "\<forall>r<b. \<forall>k<c. map2 (map2 (+)) t s ! r ! k = (\<Sum>t\<leftarrow>t # u # us. t ! r ! k)"
    using has_shape_add(2) [OF t s(2)] s(3) by simp
  ultimately show ?case by blast
qed

lemma chunks_rows:
  "0 < n \<Longrightarrow> list_all (\<lambda>row. length row = n) t \<Longrightarrow> chunks n (concat t) = t"
proof (induction t)
  case Nil
  then show ?case by (simp add: chunks.simps)
next
  case (Cons row t)
  then have "row \<noteq> []" by auto
  with Cons show ?case by (subst chunks.simps) simp
qed

lemma view2_rows:
  "0 < c \<Longrightarrow> has_shape b c t \<Longrightarrow> view2 c t = Inr t"
proof -
  assume c: "0 < c" and t: "has_shape b c t"
  have "length (concat t) = b * c"
    using has_shape_lengths [OF t] by (simp add: length_concat sum_list_replicate)
  then show ?thesis
    using c t by (simp add: view2_def chunks_rows has_shape_def)
qed

lemma branches_labelled_ok:
  "\<forall>i\<in>set idxs. i < length layers \<and> has_shape b (num_labels g) (branch_logits g layers am i)
     \<Longrightarrow> 0 < num_labels g \<Longrightarrow>
     branches g layers am (Some ls) idxs (losses, lgs)
       = Inr (losses @ map (\<lambda>i. loss_fct g i (branch_logits g layers am i) ls) idxs,
              lgs @ map (branch_logits g layers am) idxs)"
proof (induction idxs arbitrary: losses lgs)
  case Nil
  then show ?case by simp
next
  case (Cons i idxs)
  then have v: "view2 (num_labels g) (branch_logits g layers am i)
                  = Inr (branch_logits g layers am i)"
    by (auto intro: view2_rows)
  from Cons.prems have i: "i < length layers" by simp
  show ?case
    using Cons.IH Cons.prems v i
    by (simp add: py_index_from_end Let_def branch_logits_def [symmetric])
qed


lemma GRoIE_forward_labelled:
  assumes "GRoIE_forward g layers am (Some ls) = Inr (total_loss, avg_logits)"
  shows "total_loss = Scalar (\<Sum>i<count g.
           loss_fct g i (chunks (num_labels g) (concat (branch_logits g layers am i))) ls)"
proof -
  from assms obtain losses lgs where
    b: "branches g layers am (Some ls) [0..<count g] ([], []) = Inr (losses, lgs)"
    and t: "total_loss = Scalar (sum_list losses)"
    by (auto simp: GRoIE_forward_def split: sum.splits if_splits prod.splits)
  from branches_labelled [OF b] t show ?thesis
    by (simp add: sum_list_upt)
qed

lemma GRoIE_forward_labelled_ok:
  assumes k: "0 < count g" "count g \<le> length layers" and nl: "0 < num_labels g"
    and sh: "\<forall>i<count g. has_shape b (num_labels g) (branch_logits g layers am i)"
  shows "\<exists>s. stack_sum (map (branch_logits g layers am) [0..<count g]) = Inr s
           \<and> has_shape b (num_labels g) s
           \<and> (\<forall>r<b. \<forall>c<num_labels g. s ! r ! c = (\<Sum>i<count g. branch_logits g layers am i ! r ! c))
           \<and> GRoIE_forward g layers am (Some ls)
             = Inr (Scalar (\<Sum>i<count g. loss_fct g i (branch_logits g layers am i) ls),
                    map (map (\<lambda>x. x / real (count g))) s)"
proof -
  have "\<forall>i\<in>set [0..<count g]. i < length layers
          \<and> has_shape b (num_labels g) (branch_logits g layers am i)"
    using k sh by simp
  from branches_labelled_ok [OF this nl, of ls "[]" "[]"]
  have b: "branches g layers am (Some ls) [0..<count g] ([], [])
             = Inr (map (\<lambda>i. loss_fct g i (branch_logits g layers am i) ls) [0..<count g],
                    map (branch_logits g layers am) [0..<count g])"
    by simp
  have ne: "map (branch_logits g layers am) [0..<count g] \<noteq> []"
    using k by simp
  have "\<forall>t\<in>set (map (branch_logits g layers am) [0..<count g]). has_shape b (num_labels g) t"
    using sh by simp
  from stack_sum_shape [OF ne this] obtain s where
    s: "stack_sum (map (branch_logits g layers am) [0..<count g]) = Inr s"
      "has_shape b (num_labels g) s"
      "\<forall>r<b. \<forall>c<num_labels g.
         s ! r ! c = (\<Sum>t\<leftarrow>map (branch_logits g layers am) [0..<count g]. t ! r ! c)"
    by blast
  have "\<forall>r<b. \<forall>c<num_labels g. s ! r ! c = (\<Sum>i<count g. branch_logits g layers am i ! r ! c)"
    using s(3) by (simp add: sum_list_upt [symmetric] comp_def)
  moreover have "GRoIE_forward g layers am (Some ls)
             = Inr (Scalar (\<Sum>i<count g. loss_fct g i (branch_logits g layers am i) ls),
                    map (map (\<lambda>x. x / real (count g))) s)"
    using b s(1) k by (simp add: GRoIE_forward_def sum_list_upt)
  ultimately show ?thesis using s(1,2) by blast
qed

lemma GRoIE_forward_unlabelled:
  assumes "GRoIE_forward g layers am None = Inr (total_loss, avg_logits)"
  shows "total_loss = Tensor1 []
       \<and> count g \<le> length layers
       \<and> (\<exists>s. stack_sum (map (branch_logits g layers am) [0..<count g]) = Inr s
              \<and> avg_logits = map (map (\<lambda>x. x / real (count g))) s)"
proof -
  from assms obtain losses lgs s where
    b: "branches g layers am None [0..<count g] ([], []) = Inr (losses, lgs)"
    and s: "stack_sum lgs = Inr s"
    and r: "total_loss = Tensor1 []" "avg_logits = map (map (\<lambda>x. x / real (count g))) s"
    by (auto simp: GRoIE_forward_def split: sum.splits prod.splits)
  from branches_unlabelled [OF b] have
    lgs: "lgs = map (branch_logits g layers am) [0..<count g]"
    and idx: "\<forall>i\<in>set [0..<count g]. i < length layers"
    by simp_all
  have "count g \<le> length layers"
  proof (cases "count g")
    case 0
    then show ?thesis by simp
  next
    case (Suc n)
    with idx have "n < length layers" by simp
    with Suc show ?thesis by simp
  qed
  with s r lgs show ?thesis by simp
qed

lemma GRoIE_forward_unlabelled_ok:
  assumes k: "0 < count g" "count g \<le> length layers"
    and sh: "\<forall>i<count g. has_shape b c (branch_logits g layers am i)"
  shows "\<exists>s. stack_sum (map (branch_logits g layers am) [0..<count g]) = Inr s
           \<and> has_shape b c s
           \<and> (\<forall>r<b. \<forall>j<c. s ! r ! j = (\<Sum>i<count g. branch_logits g layers am i ! r ! j))
           \<and> GRoIE_forward g layers am None
             = Inr (Tensor1 [], map (map (\<lambda>x. x / real (count g))) s)"
proof -
  have "\<forall>i\<in>set [0..<count g]. i < length layers"
    using k by simp
  from branches_unlabelled_ok [OF this, of g am "[]" "[]"]
  have b: "branches g layers am None [0..<count g] ([], [])
             = Inr ([], map (branch_logits g layers am) [0..<count g])"
    by simp
  have ne: "map (branch_logits g layers am) [0..<count g] \<noteq> []"
    using k by simp
  have "\<forall>t\<in>set (map (branch_logits g layers am) [0..<count g]). has_shape b c t"
    using sh by simp
  from stack_sum_shape [OF ne this] obtain s where
    s: "stack_sum (map (branch_logits g layers am) [0..<count g]) = Inr s"
      "has_shape b c s"
      "\<forall>r<b. \<forall>j<c.
         s ! r ! j = (\<Sum>t\<leftarrow>map (branch_logits g layers am) [0..<count g]. t ! r ! j)"
    by blast
  have "\<forall>r<b. \<forall>j<c. s ! r ! j = (\<Sum>i<count g. branch_logits g layers am i ! r ! j)"
    using s(3) by (simp add: sum_list_upt [symmetric] comp_def)
  moreover have "GRoIE_forward g layers am None
             = Inr (Tensor1 [], map (map (\<lambda>x. x / real (count g))) s)"
    using b s(1) by (simp add: GRoIE_forward_def)
  ultimately show ?thesis using s(1,2) by blast
qed

lemma has_shape_scale:
  "has_shape b c s \<Longrightarrow> has_shape b c (map (map f) s)"
  "has_shape b c s \<Longrightarrow> r < b \<Longrightarrow> j < c \<Longrightarrow> map (map f) s ! r ! j = f (s ! r ! j)"
  unfolding has_shape_def by (auto simp: list_all_length)

lemma upt_all_less: "\<forall>i\<in>set [0..<k]. i < n \<Longrightarrow> k \<le> (n::nat)"
  by (cases k) auto

lemma GRoIE_forward_depth:
  assumes "GRoIE_forward g layers am labels = Inr (total_loss, avg_logits)"
  shows "0 < count g \<and> count g \<le> length layers"
proof -
  from assms obtain losses lgs s where
    b: "branches g layers am labels [0..<count g] ([], []) = Inr (losses, lgs)"
    and s: "stack_sum lgs = Inr s"
    by (auto simp: GRoIE_forward_def split: sum.splits prod.splits)
  have "lgs = map (branch_logits g layers am) [0..<count g]
          \<and> (\<forall>i\<in>set [0..<count g]. i < length layers)"
  proof (cases labels)
    case None
    with b have "branches g layers am None [0..<count g] ([], []) = Inr (losses, lgs)"
      by simp
    from branches_unlabelled [OF this] show ?thesis by simp
  next
    case (Some ls)
    with b have "branches g layers am (Some ls) [0..<count g] ([], []) = Inr (losses, lgs)"
      by simp
    from branches_labelled [OF this] show ?thesis by simp
  qed
  moreover from s have "lgs \<noteq> []" by auto
  ultimately show ?thesis by (auto dest: upt_all_less)
qed

text \<open>
  Claim C2. Whenever \<open>GRoIE.forward\<close> is called with labels and returns, the total loss
  is the sum (not the mean) of the \<open>count\<close> per-branch losses: branch \<open>i\<close> applies its
  own refinement layer \<open>pre_layers[i]\<close> to the hidden state at position \<open>-i-1\<close> from the
  end of the layer stack, then the shared pooler and the shared classifier, and its own
  loss function to the logits viewed in rows of \<open>num_labels\<close>. The call returns only
  when the stack has at least \<open>count\<close> layers, so every position is in range.
\<close>

theorem GRoIE_forward_loss_is_sum:
  assumes "GRoIE_forward g layers am (Some ls) = Inr (total_loss, avg_logits)"
  shows "0 < count g \<and> count g \<le> length layers
       \<and> total_loss = Scalar (\<Sum>i<count g.
           loss_fct g i
             (chunks (num_labels g)
                (concat (classifier g (pooler g
                   (pre_layers g i (layers ! (length layers - Suc i)) am)))))
             ls)"
  using GRoIE_forward_labelled [OF assms] GRoIE_forward_depth [OF assms]
  by (simp add: branch_logits_def)

theorem GRoIE_forward_loss_is_sum_witness:
  "GRoIE_forward
     (GRoIE_init 2 id (\<lambda>i h m. map (map (\<lambda>x. x + real i)) h)
        (\<lambda>i l ls. sum_list (concat l) + real i) id 3)
     [[[1, 2, 3]], [[4, 5, 6]]] () (Some [0])
   = Inr (Scalar 25, [[3, 4, 5]])
   \<and> Scalar 25 = Scalar (\<Sum>i<2. sum_list (concat (chunks 3 (concat
         (map (map (\<lambda>x. x + real i)) ([[[1, 2, 3]], [[4, 5, 6]]] ! (2 - Suc i)))))) + real i)"
proof -
  let ?g = "GRoIE_init 2 id (\<lambda>i h m. map (map (\<lambda>x. x + real i)) h)
              (\<lambda>i l ls. sum_list (concat l) + real i) id 3 :: (logits, unit, logits) GRoIE"
  have run: "GRoIE_forward ?g [[[1, 2, 3]], [[4, 5, 6]]] () (Some [0])
               = Inr (Scalar 25, [[3, 4, 5]])"
    by code_simp
  from GRoIE_forward_loss_is_sum [OF run] run show ?thesis
    by (simp add: GRoIE_init_def)
qed

text \<open>
  The call with labels does return, with the losses computed on the branch logits as they
  are, when the head has at least one branch, the stack at least \<open>count\<close> layers and
  every branch yields logits of shape \<open>(b, num_labels)\<close>.
\<close>

lemma GRoIE_forward_labelled_returns:
  assumes "0 < count g" and "count g \<le> length layers" and "0 < num_labels g"
    and "\<forall>i<count g. has_shape b (num_labels g) (branch_logits g layers am i)"
  shows "\<exists>avg_logits. GRoIE_forward g layers am (Some ls)
           = Inr (Scalar (\<Sum>i<count g. loss_fct g i (branch_logits g layers am i) ls),
                  avg_logits)"
  using GRoIE_forward_labelled_ok [OF assms] by blast

text \<open>
  Claim C5, as amended. Whenever \<open>GRoIE.forward\<close> is called without labels and returns,
  the first component of the pair is \<open>torch.Tensor(0)\<close>, an empty tensor: it has no
  element, and reading a number from it with \<open>item\<close> raises, so it is a placeholder that
  holds no value rather than the value zero. The second component is the aggregated
  logits: the stacked sum of the branch logits divided by \<open>count\<close>.
\<close>

theorem GRoIE_forward_placeholder:
  assumes "GRoIE_forward g layers am None = Inr (total_loss, avg_logits)"
  shows "total_loss = Tensor1 []
       \<and> item total_loss = Inl RuntimeError
       \<and> (\<exists>s. stack_sum (map (\<lambda>i. classifier g (pooler g
                   (pre_layers g i (layers ! (length layers - Suc i)) am))) [0..<count g]) = Inr s
              \<and> avg_logits = map (map (\<lambda>x. x / real (count g))) s)"
proof -
  have "branch_logits g layers am
          = (\<lambda>i. classifier g (pooler g (pre_layers g i (layers ! (length layers - Suc i)) am)))"
    by (rule ext) (simp add: branch_logits_def)
  with GRoIE_forward_unlabelled [OF assms] show ?thesis by simp
qed

theorem GRoIE_forward_placeholder_witness:
  "GRoIE_forward
     (GRoIE_init 2 id (\<lambda>i h m. map (map (\<lambda>x. x + real i)) h)
        (\<lambda>i l ls. sum_list (concat l) + real i) id 3)
     [[[1, 2, 3]], [[4, 5, 6]]] () None
   = Inr (Tensor1 [], [[3, 4, 5]])
   \<and> item (Tensor1 []) = Inl RuntimeError"
proof -
  let ?g = "GRoIE_init 2 id (\<lambda>i h m. map (map (\<lambda>x. x + real i)) h)
              (\<lambda>i l ls. sum_list (concat l) + real i) id 3 :: (logits, unit, logits) GRoIE"
  have run: "GRoIE_forward ?g [[[1, 2, 3]], [[4, 5, 6]]] () None
               = Inr (Tensor1 [], [[3, 4, 5]])"
    by code_simp
  from GRoIE_forward_placeholder [OF run] run show ?thesis
    by simp
qed

text \<open>
  The claim as first stated fails on a head of one branch over a one-layer stack: the
  first component returned without labels is the empty tensor, which is not the scalar
  zero, and from which no number, zero or other, can be read.
\<close>

theorem GRoIE_forward_placeholder_not_zero:
  "GRoIE_forward (GRoIE_init 1 id (\<lambda>i h m. h) (\<lambda>i l ls. 0) id 3) [[[1, 2, 3]]] () None
     = Inr (Tensor1 [], [[1, 2, 3]])
   \<and> Tensor1 [] \<noteq> Scalar 0
   \<and> item (Tensor1 []) \<noteq> Inr 0"
proof -
  have "GRoIE_forward
          (GRoIE_init 1 id (\<lambda>i h m. h) (\<lambda>i l ls. 0) id 3 :: (logits, unit, logits) GRoIE)
          [[[1, 2, 3]]] () None
        = Inr (Tensor1 [], [[1, 2, 3]])"
    by code_simp
  then show ?thesis by simp
qed

end
